theory Spec2Isabelle
  imports Main
begin

section \<open>FlatMap: an associative container stored in a vector\<close>

text \<open>
  The container of \<^verbatim>\<open>rkcommon::containers::FlatMap<KEY, VALUE>\<close>: one
  \<^verbatim>\<open>std::vector<std::pair<KEY, VALUE>>\<close>, searched linearly. The vector is a
  list; iterators and references into it are positions in that list (the end
  iterator is the length). The capacity of the vector is not part of the state,
  and a vector that grows always finds its memory; the check of \<^verbatim>\<open>reserve\<close> on
  its argument is modelled. Keys are compared by equality: \<^verbatim>\<open>==\<close> of \<^verbatim>\<open>KEY\<close> is
  taken to be an equivalence and \<^verbatim>\<open>!=\<close> its negation.
\<close>

subsection \<open>Exceptions\<close>

text \<open>
  The exception classes of \<^verbatim>\<open><stdexcept>\<close>, which the header includes. An exception
  object carries its class, which is what a handler selects on, and the message
  returned by \<^verbatim>\<open>what()\<close>.
\<close>

datatype exception_type =
    std_logic_error | std_domain_error | std_invalid_argument | std_length_error
  | std_out_of_range | std_runtime_error | std_range_error | std_overflow_error
  | std_underflow_error

record exception =
  etype :: exception_type
  what :: string

definition out_of_range :: "string \<Rightarrow> exception" where
  "out_of_range what_arg = \<lparr>etype = std_out_of_range, what = what_arg\<rparr>"

definition length_error :: "string \<Rightarrow> exception" where
  "length_error what_arg = \<lparr>etype = std_length_error, what = what_arg\<rparr>"

subsection \<open>The standard algorithms and vector members the container calls\<close>

text \<open>
  \<^verbatim>\<open>std::find_if(first, last, pred)\<close>: the position of the first element that
  satisfies \<open>pred\<close>, the end position when there is none.
\<close>

fun find_if :: "('a \<Rightarrow> bool) \<Rightarrow> 'a list \<Rightarrow> nat" where
  "find_if pred [] = 0"
| "find_if pred (x # xs) = (if pred x then 0 else Suc (find_if pred xs))"

text \<open>
  \<^verbatim>\<open>std::stable_partition(first, last, pred)\<close>, as the GNU C++ library runs it
  when its temporary buffer holds the whole range. The predicate is a closure
  of the caller, so it is given the sequence as it is at the moment of the
  test; \<open>mv\<close> is what a move leaves behind in the element moved from (\<open>mv x = x\<close>
  for an element that a move copies).

  The leading elements that satisfy \<open>pred\<close> stay where they are. The first
  element that fails it is moved to the buffer; when it is the last element of
  the range, nothing is moved at all. Then each further element, tested once,
  is moved to the next free position \<open>result1\<close> of the sequence when it
  satisfies \<open>pred\<close>, and to the end of the buffer when it does not. At the end
  the buffer is moved back behind the elements kept, and \<open>result1\<close> is returned.
\<close>

fun partition_loop ::
  "('a \<Rightarrow> 'a) \<Rightarrow> ('a list \<Rightarrow> 'a \<Rightarrow> bool) \<Rightarrow> nat \<Rightarrow> nat \<Rightarrow> nat \<Rightarrow> 'a list \<Rightarrow> 'a list
     \<Rightarrow> 'a list \<times> nat \<times> 'a list" where
  "partition_loop mv pred 0 first result1 buffer xs = (xs, result1, buffer)"
| "partition_loop mv pred (Suc n) first result1 buffer xs =
     (if pred xs (xs ! first)
      then partition_loop mv pred n (Suc first) (Suc result1) buffer
             (xs[result1 := xs ! first, first := mv (xs ! first)])
      else partition_loop mv pred n (Suc first) result1 (buffer @ [xs ! first])
             (xs[first := mv (xs ! first)]))"

definition stable_partition ::
  "('a \<Rightarrow> 'a) \<Rightarrow> ('a list \<Rightarrow> 'a \<Rightarrow> bool) \<Rightarrow> 'a list \<Rightarrow> 'a list \<times> nat" where
  "stable_partition mv pred xs =
     (let first = find_if (\<lambda>x. \<not> pred xs x) xs in
      if first = length xs then (xs, first)
      else if length xs - first = 1 then (xs, first)
      else
        (let (ys, result1, buffer) =
               partition_loop mv pred (length xs - Suc first) (Suc first) first [xs ! first]
                 (xs[first := mv (xs ! first)])
         in (take result1 ys @ buffer, result1)))"

text \<open>
  \<^verbatim>\<open>std::vector::at(n)\<close>: a reference to element \<open>n\<close>, or \<^verbatim>\<open>std::out_of_range\<close>
  when \<open>n\<close> is not below the size. The message of that exception is chosen by
  the standard library; it is the parameter \<open>range_what\<close>, given the index and
  the size.
\<close>

definition vector_at :: "(nat \<Rightarrow> nat \<Rightarrow> string) \<Rightarrow> 'a list \<Rightarrow> nat \<Rightarrow> exception + nat" where
  "vector_at range_what xs n =
     (if n < length xs then Inr n else Inl (out_of_range (range_what n (length xs))))"

text \<open>
  \<^verbatim>\<open>std::vector::reserve(n)\<close>: \<^verbatim>\<open>std::length_error\<close> when \<open>n\<close> is above
  \<^verbatim>\<open>max_size()\<close>; otherwise the elements are as before. The limit \<open>max_size\<close> and
  the message \<open>length_what\<close> are those of the standard library.
\<close>

definition vector_reserve :: "nat \<Rightarrow> string \<Rightarrow> 'a list \<Rightarrow> nat \<Rightarrow> exception + 'a list" where
  "vector_reserve max_size length_what xs n =
     (if max_size < n then Inl (length_error length_what) else Inr xs)"

subsection \<open>The container\<close>

record ('k, 'v) FlatMap =
  values_fm :: "('k \<times> 'v) list"

text \<open>\<^verbatim>\<open>FlatMap() = default\<close>: the vector starts empty.\<close>

definition FlatMap_new :: "('k, 'v) FlatMap" where
  "FlatMap_new = \<lparr>values_fm = []\<rparr>"

text \<open>
  Reading and writing through a returned reference. A \<^verbatim>\<open>VALUE &\<close> is the
  position of the pair whose second component it refers to; an \<^verbatim>\<open>item_t &\<close>
  is the position of the pair.
\<close>

definition deref_value :: "('k, 'v) FlatMap \<Rightarrow> nat \<Rightarrow> 'v" where
  "deref_value m r = snd (values_fm m ! r)"

definition deref_item :: "('k, 'v) FlatMap \<Rightarrow> nat \<Rightarrow> 'k \<times> 'v" where
  "deref_item m r = values_fm m ! r"

definition assign :: "('k, 'v) FlatMap \<Rightarrow> nat \<Rightarrow> 'v \<Rightarrow> ('k, 'v) FlatMap" where
  "assign m r v = m\<lparr>values_fm := (values_fm m)[r := (fst (values_fm m ! r), v)]\<rparr>"

text \<open>The private helper \<^verbatim>\<open>lookup\<close>, in its two overloads.\<close>

definition lookup :: "('k, 'v) FlatMap \<Rightarrow> 'k \<Rightarrow> nat" where
  "lookup m key = find_if (\<lambda>item. fst item = key) (values_fm m)"

definition lookup_const :: "('k, 'v) FlatMap \<Rightarrow> 'k \<Rightarrow> nat" where
  "lookup_const m key = find_if (\<lambda>item. fst item = key) (values_fm m)"

text \<open>
  A member function that is not \<^verbatim>\<open>const\<close> returns its result and the container
  after the call; a \<^verbatim>\<open>const\<close> one returns its result only. The \<^verbatim>\<open>const\<close>
  overload of \<^verbatim>\<open>operator[]\<close> is written with the same \<^verbatim>\<open>push_back\<close> as the
  other, so it returns the container too; a program that calls it does not
  compile, since the vector is \<^verbatim>\<open>const\<close> there.
\<close>

definition at :: "('k, 'v) FlatMap \<Rightarrow> 'k \<Rightarrow> (exception + nat) \<times> ('k, 'v) FlatMap" where
  "at m key =
     (let itr = lookup m key in
      if itr = length (values_fm m)
      then (Inl (out_of_range ''key wasn't found in FlatMap<>''), m)
      else (Inr itr, m))"

definition at_const :: "('k, 'v) FlatMap \<Rightarrow> 'k \<Rightarrow> exception + nat" where
  "at_const m key =
     (let itr = lookup_const m key in
      if itr = length (values_fm m)
      then Inl (out_of_range ''key wasn't found in FlatMap<>'')
      else Inr itr)"

text \<open>
  The value read through the reference that \<^verbatim>\<open>at\<close> returns, or the exception
  it throws.
\<close>

definition read_at :: "('k, 'v) FlatMap \<Rightarrow> 'k \<Rightarrow> exception + 'v" where
  "read_at m key = map_sum id (deref_value m) (at_const m key)"

text \<open>
  \<^verbatim>\<open>operator[]\<close>. \<open>dv\<close> is the value-initialised \<^verbatim>\<open>VALUE()\<close>;
  \<^verbatim>\<open>values.back().second\<close> is the reference to the last pair.
\<close>

definition index_op :: "'v \<Rightarrow> ('k, 'v) FlatMap \<Rightarrow> 'k \<Rightarrow> nat \<times> ('k, 'v) FlatMap" where
  "index_op dv m key =
     (let itr = lookup m key in
      if itr = length (values_fm m)
      then (let m' = m\<lparr>values_fm := values_fm m @ [(key, dv)]\<rparr>
            in (length (values_fm m') - 1, m'))
      else (itr, m))"

definition index_op_const :: "'v \<Rightarrow> ('k, 'v) FlatMap \<Rightarrow> 'k \<Rightarrow> nat \<times> ('k, 'v) FlatMap" where
  "index_op_const dv m key =
     (let itr = lookup_const m key in
      if itr = length (values_fm m)
      then (let m' = m\<lparr>values_fm := values_fm m @ [(key, dv)]\<rparr>
            in (length (values_fm m') - 1, m'))
      else (itr, m))"

definition at_index ::
  "(nat \<Rightarrow> nat \<Rightarrow> string) \<Rightarrow> ('k, 'v) FlatMap \<Rightarrow> nat \<Rightarrow> (exception + nat) \<times> ('k, 'v) FlatMap" where
  "at_index range_what m index = (vector_at range_what (values_fm m) index, m)"

definition at_index_const ::
  "(nat \<Rightarrow> nat \<Rightarrow> string) \<Rightarrow> ('k, 'v) FlatMap \<Rightarrow> nat \<Rightarrow> exception + nat" where
  "at_index_const range_what m index = vector_at range_what (values_fm m) index"

definition size_fm :: "('k, 'v) FlatMap \<Rightarrow> nat" where
  "size_fm m = length (values_fm m)"

text \<open>
  \<^verbatim>\<open>size_t empty() const\<close>: the \<^verbatim>\<open>bool\<close> of \<^verbatim>\<open>values.empty()\<close> converted to
  \<^verbatim>\<open>size_t\<close>, so 1 for true and 0 for false.
\<close>

definition empty :: "('k, 'v) FlatMap \<Rightarrow> nat" where
  "empty m = (if values_fm m = [] then 1 else 0)"

definition contains :: "('k, 'v) FlatMap \<Rightarrow> 'k \<Rightarrow> bool" where
  "contains m key = (lookup_const m key \<noteq> length (values_fm m))"

text \<open>
  The argument of \<^verbatim>\<open>erase\<close> is a \<^verbatim>\<open>const KEY &\<close>, and the predicate given to
  \<^verbatim>\<open>std::stable_partition\<close> captures it by reference: each test reads the key
  object as it is then. The object is either outside the container, and keeps
  its value, or it is the key of the stored pair at some position, and then it
  changes with that pair while the pairs are moved. The other member functions
  that take a \<^verbatim>\<open>const KEY &\<close> change nothing while they compare, so they are
  given the value of the key.
\<close>

datatype 'k key_ref = External 'k | Stored nat

fun read_key :: "('k \<times> 'v) list \<Rightarrow> 'k key_ref \<Rightarrow> 'k" where
  "read_key xs (External k) = k"
| "read_key xs (Stored i) = fst (xs ! i)"

text \<open>
  \<^verbatim>\<open>erase\<close>: the partition point is the new size. It is never above the old
  size, so \<^verbatim>\<open>resize\<close> only drops the tail. \<open>mv\<close> is what a move leaves in a
  pair moved from.
\<close>

definition erase ::
  "('k \<times> 'v \<Rightarrow> 'k \<times> 'v) \<Rightarrow> ('k, 'v) FlatMap \<Rightarrow> 'k key_ref \<Rightarrow> ('k, 'v) FlatMap" where
  "erase mv m key =
     (let (partitioned, itr) =
            stable_partition mv (\<lambda>vs i. fst i \<noteq> read_key vs key) (values_fm m)
      in m\<lparr>values_fm := take itr partitioned\<rparr>)"

definition clear :: "('k, 'v) FlatMap \<Rightarrow> ('k, 'v) FlatMap" where
  "clear m = m\<lparr>values_fm := []\<rparr>"

text \<open>
  \<^verbatim>\<open>reserve\<close> passes its argument to the vector: it throws what the vector
  throws, and otherwise changes the capacity only, which the model does not
  hold.
\<close>

definition reserve ::
  "nat \<Rightarrow> string \<Rightarrow> ('k, 'v) FlatMap \<Rightarrow> nat \<Rightarrow> (exception + unit) \<times> ('k, 'v) FlatMap" where
  "reserve max_size length_what m n =
     (case vector_reserve max_size length_what (values_fm m) n of
        Inl e \<Rightarrow> (Inl e, m)
      | Inr vs \<Rightarrow> (Inr (), m\<lparr>values_fm := vs\<rparr>))"

text \<open>
  Iterators are positions; a reverse iterator is given by the position of its
  base, so \<^verbatim>\<open>rbegin\<close> is based at the end and \<^verbatim>\<open>rend\<close> at the beginning.
\<close>

definition cbegin :: "('k, 'v) FlatMap \<Rightarrow> nat" where
  "cbegin m = 0"

definition begin_fm :: "('k, 'v) FlatMap \<Rightarrow> nat \<times> ('k, 'v) FlatMap" where
  "begin_fm m = (0, m)"

definition begin_const :: "('k, 'v) FlatMap \<Rightarrow> nat" where
  "begin_const m = cbegin m"

definition cend :: "('k, 'v) FlatMap \<Rightarrow> nat" where
  "cend m = length (values_fm m)"

definition end_fm :: "('k, 'v) FlatMap \<Rightarrow> nat \<times> ('k, 'v) FlatMap" where
  "end_fm m = (length (values_fm m), m)"

definition end_const :: "('k, 'v) FlatMap \<Rightarrow> nat" where
  "end_const m = cend m"

definition crbegin :: "('k, 'v) FlatMap \<Rightarrow> nat" where
  "crbegin m = length (values_fm m)"

definition rbegin :: "('k, 'v) FlatMap \<Rightarrow> nat \<times> ('k, 'v) FlatMap" where
  "rbegin m = (length (values_fm m), m)"

definition rbegin_const :: "('k, 'v) FlatMap \<Rightarrow> nat" where
  "rbegin_const m = crbegin m"

definition crend :: "('k, 'v) FlatMap \<Rightarrow> nat" where
  "crend m = 0"

definition rend :: "('k, 'v) FlatMap \<Rightarrow> nat \<times> ('k, 'v) FlatMap" where
  "rend m = (0, m)"

definition rend_const :: "('k, 'v) FlatMap \<Rightarrow> nat" where
  "rend_const m = crend m"

subsection \<open>Sequences of calls\<close>

text \<open>
  \<^verbatim>\<open>m[key] = v\<close>: the call of \<^verbatim>\<open>operator[]\<close> followed by the assignment through
  the reference it returned.
\<close>

definition insert_or_assign :: "'v \<Rightarrow> ('k, 'v) FlatMap \<Rightarrow> 'k \<Rightarrow> 'v \<Rightarrow> ('k, 'v) FlatMap" where
  "insert_or_assign dv m key v = (let (r, m') = index_op dv m key in assign m' r v)"

text \<open>
  A sequence of \<^verbatim>\<open>operator[]\<close> calls, each one either left as it is (\<open>None\<close>) or
  followed by an assignment through the returned reference (\<open>Some v\<close>).
\<close>

fun index_ops :: "'v \<Rightarrow> ('k \<times> 'v option) list \<Rightarrow> ('k, 'v) FlatMap \<Rightarrow> ('k, 'v) FlatMap" where
  "index_ops dv [] m = m"
| "index_ops dv ((key, None) # cs) m = index_ops dv cs (snd (index_op dv m key))"
| "index_ops dv ((key, Some v) # cs) m = index_ops dv cs (insert_or_assign dv m key v)"

text \<open>A sequence of \<^verbatim>\<open>erase\<close> calls, each with its key argument.\<close>

fun erase_all ::
  "('k \<times> 'v \<Rightarrow> 'k \<times> 'v) \<Rightarrow> 'k key_ref list \<Rightarrow> ('k, 'v) FlatMap \<Rightarrow> ('k, 'v) FlatMap" where
  "erase_all mv [] m = m"
| "erase_all mv (key # ks) m = erase_all mv ks (erase mv m key)"

text \<open>
  The public interface as one function: a call, with its arguments, applied to
  a container gives the result or the exception thrown, and the container
  after the call. \<open>dv\<close> is \<^verbatim>\<open>VALUE()\<close>, \<open>mv\<close> what a move leaves in a pair,
  \<open>rw\<close> the message of \<^verbatim>\<open>std::vector::at\<close>, \<open>ms\<close> and \<open>lw\<close> the limit and the
  message of \<^verbatim>\<open>std::vector::reserve\<close>.
\<close>

datatype 'k call =
    Call_at 'k | Call_at_const 'k
  | Call_index_op 'k | Call_index_op_const 'k
  | Call_at_index nat | Call_at_index_const nat
  | Call_size | Call_empty | Call_contains 'k
  | Call_erase "'k key_ref" | Call_clear | Call_reserve nat
  | Call_begin | Call_begin_const | Call_cbegin
  | Call_end | Call_end_const | Call_cend
  | Call_rbegin | Call_rbegin_const | Call_crbegin
  | Call_rend | Call_rend_const | Call_crend

datatype ret =
    Value_ref nat | Item_ref nat | Size_t nat | Bool bool | Void
  | Iterator nat | Reverse_iterator nat

fun invoke ::
  "'v \<Rightarrow> ('k \<times> 'v \<Rightarrow> 'k \<times> 'v) \<Rightarrow> (nat \<Rightarrow> nat \<Rightarrow> string) \<Rightarrow> nat \<Rightarrow> string
     \<Rightarrow> ('k, 'v) FlatMap \<Rightarrow> 'k call \<Rightarrow> (exception + ret) \<times> ('k, 'v) FlatMap" where
  "invoke dv mv rw ms lw m (Call_at key) = (map_sum id Value_ref (fst (at m key)), snd (at m key))"
| "invoke dv mv rw ms lw m (Call_at_const key) = (map_sum id Value_ref (at_const m key), m)"
| "invoke dv mv rw ms lw m (Call_index_op key) =
     (Inr (Value_ref (fst (index_op dv m key))), snd (index_op dv m key))"
| "invoke dv mv rw ms lw m (Call_index_op_const key) =
     (Inr (Value_ref (fst (index_op_const dv m key))), snd (index_op_const dv m key))"
| "invoke dv mv rw ms lw m (Call_at_index i) =
     (map_sum id Item_ref (fst (at_index rw m i)), snd (at_index rw m i))"
| "invoke dv mv rw ms lw m (Call_at_index_const i) = (map_sum id Item_ref (at_index_const rw m i), m)"
| "invoke dv mv rw ms lw m Call_size = (Inr (Size_t (size_fm m)), m)"
| "invoke dv mv rw ms lw m Call_empty = (Inr (Size_t (empty m)), m)"
| "invoke dv mv rw ms lw m (Call_contains key) = (Inr (Bool (contains m key)), m)"
| "invoke dv mv rw ms lw m (Call_erase key) = (Inr Void, erase mv m key)"
| "invoke dv mv rw ms lw m Call_clear = (Inr Void, clear m)"
| "invoke dv mv rw ms lw m (Call_reserve n) =
     (map_sum id (\<lambda>u. Void) (fst (reserve ms lw m n)), snd (reserve ms lw m n))"
| "invoke dv mv rw ms lw m Call_begin = (Inr (Iterator (fst (begin_fm m))), snd (begin_fm m))"
| "invoke dv mv rw ms lw m Call_begin_const = (Inr (Iterator (begin_const m)), m)"
| "invoke dv mv rw ms lw m Call_cbegin = (Inr (Iterator (cbegin m)), m)"
| "invoke dv mv rw ms lw m Call_end = (Inr (Iterator (fst (end_fm m))), snd (end_fm m))"
| "invoke dv mv rw ms lw m Call_end_const = (Inr (Iterator (end_const m)), m)"
| "invoke dv mv rw ms lw m Call_cend = (Inr (Iterator (cend m)), m)"
| "invoke dv mv rw ms lw m Call_rbegin = (Inr (Reverse_iterator (fst (rbegin m))), snd (rbegin m))"
| "invoke dv mv rw ms lw m Call_rbegin_const = (Inr (Reverse_iterator (rbegin_const m)), m)"
| "invoke dv mv rw ms lw m Call_crbegin = (Inr (Reverse_iterator (crbegin m)), m)"
| "invoke dv mv rw ms lw m Call_rend = (Inr (Reverse_iterator (fst (rend m))), snd (rend m))"
| "invoke dv mv rw ms lw m Call_rend_const = (Inr (Reverse_iterator (rend_const m)), m)"
| "invoke dv mv rw ms lw m Call_crend = (Inr (Reverse_iterator (crend m)), m)"

section \<open>Properties\<close>

subsection \<open>Linear search\<close>

lemma find_if_le: "find_if pred xs \<le> length xs"
  by (induction xs) auto

lemma find_if_end_iff: "find_if pred xs = length xs \<longleftrightarrow> (\<forall>x \<in> set xs. \<not> pred x)"
proof (induction xs)
  case Nil
  show ?case by simp
next
  case (Cons x xs)
  have "find_if pred xs \<le> length xs" by (rule find_if_le)
  with Cons show ?case by auto
qed

lemma find_if_hit: "find_if pred xs < length xs \<Longrightarrow> pred (xs ! find_if pred xs)"
  by (induction xs) (auto split: if_splits)

lemma find_if_first: "j < find_if pred xs \<Longrightarrow> \<not> pred (xs ! j)"
proof (induction xs arbitrary: j)
  case Nil
  then show ?case by simp
next
  case (Cons x xs)
  then show ?case by (cases j) (auto split: if_splits)
qed

lemma find_if_append_miss:
  "\<forall>x \<in> set xs. \<not> pred x \<Longrightarrow> find_if pred (xs @ ys) = length xs + find_if pred ys"
  by (induction xs) auto

lemma find_if_update_hit:
  "find_if pred xs < length xs \<Longrightarrow> pred y \<Longrightarrow>
   find_if pred (xs[find_if pred xs := y]) = find_if pred xs"
  by (induction xs) (auto split: if_splits)

lemma lookup_const_eq: "lookup_const m key = lookup m key"
  by (simp add: lookup_const_def lookup_def)

lemma lookup_end_iff: "lookup m key = length (values_fm m) \<longleftrightarrow> key \<notin> fst ` set (values_fm m)"
  by (auto simp: lookup_def find_if_end_iff)

lemma contains_iff: "contains m key \<longleftrightarrow> key \<in> fst ` set (values_fm m)"
  by (simp add: contains_def lookup_const_eq lookup_end_iff)

lemma index_op_hit:
  "key \<in> fst ` set (values_fm m) \<Longrightarrow> index_op dv m key = (lookup m key, m)"
  using lookup_end_iff [of m key] by (simp add: index_op_def Let_def)

lemma index_op_miss:
  "key \<notin> fst ` set (values_fm m) \<Longrightarrow>
   index_op dv m key = (length (values_fm m), m\<lparr>values_fm := values_fm m @ [(key, dv)]\<rparr>)"
  using lookup_end_iff [of m key] by (simp add: index_op_def Let_def)

lemma index_op_const_eq: "index_op_const dv m key = index_op dv m key"
  by (simp add: index_op_const_def index_op_def lookup_const_eq)

lemma lookup_lt: "key \<in> fst ` set (values_fm m) \<Longrightarrow> lookup m key < length (values_fm m)"
  using lookup_end_iff [of m key] find_if_le [of "\<lambda>item. fst item = key" "values_fm m"]
  by (simp add: lookup_def)

lemma lookup_key: "key \<in> fst ` set (values_fm m) \<Longrightarrow> fst (values_fm m ! lookup m key) = key"
  using lookup_lt [of key m] find_if_hit [of "\<lambda>item. fst item = key" "values_fm m"]
  by (simp add: lookup_def)

lemma lookup_first: "j < lookup m key \<Longrightarrow> fst (values_fm m ! j) \<noteq> key"
  using find_if_first [of j "\<lambda>item. fst item = key" "values_fm m"]
  by (simp add: lookup_def)

lemma at_hit: "key \<in> fst ` set (values_fm m) \<Longrightarrow> at m key = (Inr (lookup m key), m)"
  using lookup_end_iff [of m key] by (simp add: at_def Let_def)

lemma at_miss:
  "key \<notin> fst ` set (values_fm m) \<Longrightarrow>
   at m key = (Inl (out_of_range ''key wasn't found in FlatMap<>''), m)"
  using lookup_end_iff [of m key] by (simp add: at_def Let_def)

lemma at_const_eq: "at_const m key = fst (at m key)"
  by (simp add: at_const_def at_def lookup_const_eq Let_def)

lemma insert_or_assign_hit:
  "key \<in> fst ` set (values_fm m) \<Longrightarrow>
   values_fm (insert_or_assign dv m key v) = (values_fm m)[lookup m key := (key, v)]"
  by (simp add: insert_or_assign_def index_op_hit assign_def lookup_key)

lemma insert_or_assign_miss:
  "key \<notin> fst ` set (values_fm m) \<Longrightarrow>
   values_fm (insert_or_assign dv m key v) = values_fm m @ [(key, v)]"
  by (simp add: insert_or_assign_def index_op_miss assign_def)

lemma lookup_insert_or_assign:
  "lookup (insert_or_assign dv m key v) key = lookup m key"
proof (cases "key \<in> fst ` set (values_fm m)")
  case True
  then have "find_if (\<lambda>item. fst item = key) (values_fm m) < length (values_fm m)"
    using lookup_lt [of key m] by (simp add: lookup_def)
  then show ?thesis
    using find_if_update_hit [of "\<lambda>item. fst item = key" "values_fm m" "(key, v)"] True
    by (simp add: lookup_def insert_or_assign_hit)
next
  case False
  then have "\<forall>x \<in> set (values_fm m). \<not> fst x = key" by force
  then have "find_if (\<lambda>item. fst item = key) (values_fm m @ [(key, v)])
      = length (values_fm m) + find_if (\<lambda>item. fst item = key) [(key, v)]"
    by (rule find_if_append_miss)
  with False show ?thesis
    using lookup_end_iff [of m key] by (simp add: lookup_def insert_or_assign_miss)
qed

lemma insert_or_assign_value:
  "snd (values_fm (insert_or_assign dv m key v) ! lookup m key) = v
   \<and> lookup m key < length (values_fm (insert_or_assign dv m key v))"
proof (cases "key \<in> fst ` set (values_fm m)")
  case True
  then show ?thesis using lookup_lt [of key m] by (simp add: insert_or_assign_hit)
next
  case False
  then show ?thesis using lookup_end_iff [of m key] by (simp add: insert_or_assign_miss)
qed

lemma find_if_map_of:
  "find_if (\<lambda>item. fst item = key) xs < length xs \<Longrightarrow>
   map_of xs key = Some (snd (xs ! find_if (\<lambda>item. fst item = key) xs))"
  by (induction xs) (auto split: if_splits)

lemma read_at_map_of:
  "read_at m key =
     (case map_of (values_fm m) key of
        None \<Rightarrow> Inl (out_of_range ''key wasn't found in FlatMap<>'')
      | Some v \<Rightarrow> Inr v)"
proof (cases "key \<in> fst ` set (values_fm m)")
  case True
  then have "find_if (\<lambda>item. fst item = key) (values_fm m) < length (values_fm m)"
    using lookup_lt [of key m] by (simp add: lookup_def)
  then have "map_of (values_fm m) key = Some (snd (values_fm m ! lookup m key))"
    unfolding lookup_def by (rule find_if_map_of)
  with True show ?thesis
    by (simp add: read_at_def at_const_eq at_hit deref_value_def)
next
  case False
  then have "map_of (values_fm m) key = None" by (simp add: map_of_eq_None_iff)
  with False show ?thesis by (simp add: read_at_def at_const_eq at_miss)
qed

lemma keys_index_op:
  "map fst (values_fm (snd (index_op dv m key))) =
     (if key \<in> fst ` set (values_fm m) then map fst (values_fm m)
      else map fst (values_fm m) @ [key])"
  by (simp add: index_op_hit index_op_miss)

lemma keys_insert_or_assign:
  "map fst (values_fm (insert_or_assign dv m key v)) =
     (if key \<in> fst ` set (values_fm m) then map fst (values_fm m)
      else map fst (values_fm m) @ [key])"
proof (cases "key \<in> fst ` set (values_fm m)")
  case True
  have "map fst ((values_fm m)[lookup m key := (key, v)]) = (map fst (values_fm m))[lookup m key := key]"
    by (simp add: map_update)
  also have "\<dots> = map fst (values_fm m)"
    using True lookup_key [of key m] lookup_lt [of key m]
    by (metis list_update_id map_update)
  finally show ?thesis using True by (simp add: insert_or_assign_hit)
next
  case False
  then show ?thesis by (simp add: insert_or_assign_miss)
qed

lemma index_ops_distinct:
  "distinct (map fst (values_fm m)) \<Longrightarrow> distinct (map fst (values_fm (index_ops dv cs m)))"
proof (induction dv cs m rule: index_ops.induct)
  case (1 dv m)
  then show ?case by simp
next
  case (2 dv key cs m)
  have "distinct (map fst (values_fm (snd (index_op dv m key))))"
    using "2.prems" by (simp add: keys_index_op)
  then show ?case using "2.IH" by simp
next
  case (3 dv key v cs m)
  have "distinct (map fst (values_fm (insert_or_assign dv m key v)))"
    using "3.prems" by (simp add: keys_insert_or_assign)
  then show ?case using "3.IH" by simp
qed

lemma distinct_keys_at_most_one:
  "distinct (map fst xs) \<Longrightarrow> length (filter (\<lambda>p. fst p = k) xs) \<le> 1"
proof (induction xs)
  case Nil
  then show ?case by simp
next
  case (Cons x xs)
  show ?case
  proof (cases "fst x = k")
    case True
    from Cons.prems have "fst x \<notin> fst ` set xs" by simp
    with True have "\<forall>p \<in> set xs. fst p \<noteq> k" by (auto simp: image_iff)
    then have "filter (\<lambda>p. fst p = k) xs = []" by (simp add: filter_empty_conv)
    with True show ?thesis by simp
  next
    case False
    with Cons show ?thesis by simp
  qed
qed

lemma at_index_eq:
  "at_index rw m i =
     (if i < size_fm m then Inr i else Inl (out_of_range (rw i (size_fm m))), m)"
  by (simp add: at_index_def vector_at_def size_fm_def)


lemma at_eq:
  "at m key =
     (if contains m key then Inr (lookup m key)
      else Inl (out_of_range ''key wasn't found in FlatMap<>''), m)"
  by (simp add: contains_iff at_hit at_miss)

subsection \<open>Partition with a key that keeps its value\<close>

lemma filter_split_find_if:
  "filter P xs =
     take (find_if (\<lambda>x. \<not> P x) xs) xs @ filter P (drop (Suc (find_if (\<lambda>x. \<not> P x) xs)) xs)"
  by (induction xs) auto

lemma partition_loop_pure:
  "result1 < first \<Longrightarrow> first + n = length xs \<Longrightarrow>
   partition_loop mv (\<lambda>vs. P) n first result1 buffer xs = (ys, r, b) \<Longrightarrow>
   take r ys = take result1 xs @ filter P (drop first xs)
   \<and> r = result1 + length (filter P (drop first xs))"
proof (induction n arbitrary: first result1 buffer xs)
  case 0
  then show ?case by simp
next
  case (Suc n)
  from Suc.prems have lt: "first < length xs" by simp
  then have dr: "drop first xs = xs ! first # drop (Suc first) xs"
    by (simp add: Cons_nth_drop_Suc)
  show ?case
  proof (cases "P (xs ! first)")
    case True
    let ?xs = "xs[result1 := xs ! first, first := mv (xs ! first)]"
    from Suc.prems True
    have run: "partition_loop mv (\<lambda>vs. P) n (Suc first) (Suc result1) buffer ?xs = (ys, r, b)"
      by simp
    have "Suc result1 < Suc first" using Suc.prems by simp
    moreover have "Suc first + n = length ?xs" using Suc.prems by simp
    ultimately have ih: "take r ys = take (Suc result1) ?xs @ filter P (drop (Suc first) ?xs)
        \<and> r = Suc result1 + length (filter P (drop (Suc first) ?xs))"
      using run by (rule Suc.IH)
    have d: "drop (Suc first) ?xs = drop (Suc first) xs"
      using Suc.prems by simp
    have t: "take (Suc result1) ?xs = take result1 xs @ [xs ! first]"
      using Suc.prems lt by (simp add: take_Suc_conv_app_nth)
    have "take r ys = take result1 xs @ filter P (drop first xs)"
      unfolding conjunct1 [OF ih] d t dr using True by simp
    moreover have "r = result1 + length (filter P (drop first xs))"
      unfolding conjunct2 [OF ih] d dr using True by simp
    ultimately show ?thesis by (rule conjI)
  next
    case False
    let ?xs = "xs[first := mv (xs ! first)]"
    from Suc.prems False
    have run: "partition_loop mv (\<lambda>vs. P) n (Suc first) result1 (buffer @ [xs ! first]) ?xs
        = (ys, r, b)"
      by simp
    have "result1 < Suc first" using Suc.prems by simp
    moreover have "Suc first + n = length ?xs" using Suc.prems by simp
    ultimately have ih: "take r ys = take result1 ?xs @ filter P (drop (Suc first) ?xs)
        \<and> r = result1 + length (filter P (drop (Suc first) ?xs))"
      using run by (rule Suc.IH)
    have d: "drop (Suc first) ?xs = drop (Suc first) xs" by simp
    have t: "take result1 ?xs = take result1 xs" using Suc.prems by simp
    have "take r ys = take result1 xs @ filter P (drop first xs)"
      unfolding conjunct1 [OF ih] d t dr using False by simp
    moreover have "r = result1 + length (filter P (drop first xs))"
      unfolding conjunct2 [OF ih] d dr using False by simp
    ultimately show ?thesis by (rule conjI)
  qed
qed

lemma stable_partition_pure:
  "take (snd (stable_partition mv (\<lambda>vs. P) xs)) (fst (stable_partition mv (\<lambda>vs. P) xs))
     = filter P xs"
proof -
  let ?f = "find_if (\<lambda>x. \<not> P x) xs"
  have split: "filter P xs = take ?f xs @ filter P (drop (Suc ?f) xs)"
    by (rule filter_split_find_if)
  have le: "?f \<le> length xs" by (rule find_if_le)
  show ?thesis
  proof (cases "?f = length xs \<or> length xs - ?f = 1")
    case True
    then have "stable_partition mv (\<lambda>vs. P) xs = (xs, ?f)"
      by (auto simp: stable_partition_def Let_def)
    moreover from True le have "drop (Suc ?f) xs = []" by auto
    ultimately show ?thesis using split by simp
  next
    case False
    with le have lt: "?f < length xs" by simp
    let ?xs = "xs[?f := mv (xs ! ?f)]"
    obtain ys r b where run:
      "partition_loop mv (\<lambda>vs. P) (length xs - Suc ?f) (Suc ?f) ?f [xs ! ?f] ?xs = (ys, r, b)"
      by (cases "partition_loop mv (\<lambda>vs. P) (length xs - Suc ?f) (Suc ?f) ?f [xs ! ?f] ?xs")
    have "?f < Suc ?f" by simp
    moreover have "Suc ?f + (length xs - Suc ?f) = length ?xs" using lt by simp
    ultimately have res: "take r ys = take ?f ?xs @ filter P (drop (Suc ?f) ?xs)
        \<and> r = ?f + length (filter P (drop (Suc ?f) ?xs))"
      using run by (rule partition_loop_pure)
    have d: "drop (Suc ?f) ?xs = drop (Suc ?f) xs" by simp
    have t: "take ?f ?xs = take ?f xs" by simp
    have eq: "take r ys = filter P xs"
      unfolding conjunct1 [OF res] d t by (rule split [symmetric])
    have "r = length (take ?f xs @ filter P (drop (Suc ?f) xs))"
      unfolding conjunct2 [OF res] d using lt by simp
    then have "r = length (take r ys)" using eq split by simp
    then have "length (take r ys) = r" by (rule sym)
    note eq
    moreover note \<open>length (take r ys) = r\<close>
    moreover from False run have "stable_partition mv (\<lambda>vs. P) xs = (take r ys @ b, r)"
      by (simp add: stable_partition_def Let_def)
    ultimately show ?thesis by simp
  qed
qed

lemma erase_external:
  "values_fm (erase mv m (External k)) = filter (\<lambda>i. fst i \<noteq> k) (values_fm m)"
  using stable_partition_pure [of mv "\<lambda>i. fst i \<noteq> k" "values_fm m"]
  by (simp add: erase_def split_beta)

lemma reserve_eq:
  "reserve ms lw m n = (if ms < n then Inl (length_error lw) else Inr (), m)"
  by (simp add: reserve_def vector_reserve_def)

subsection \<open>Round trip\<close>

text \<open>
  C1. For every container, key \<open>k\<close> and value \<open>v\<close>: after \<^verbatim>\<open>operator[](k)\<close> and
  the assignment of \<open>v\<close> through the reference it returned, \<^verbatim>\<open>at(k)\<close> does not
  throw, and the reference it returns reads \<open>v\<close>. Both overloads of \<^verbatim>\<open>at\<close>.
\<close>

theorem round_trip:
  "\<exists>r. at (insert_or_assign dv m k v) k = (Inr r, insert_or_assign dv m k v)
       \<and> at_const (insert_or_assign dv m k v) k = Inr r
       \<and> deref_value (insert_or_assign dv m k v) r = v"
proof -
  let ?m = "insert_or_assign dv m k v"
  have "lookup ?m k \<noteq> length (values_fm ?m)"
    using insert_or_assign_value [of dv m k v] by (simp add: lookup_insert_or_assign)
  then have "at ?m k = (Inr (lookup m k), ?m)"
    by (simp add: at_def Let_def lookup_insert_or_assign)
  moreover have "deref_value ?m (lookup m k) = v"
    using insert_or_assign_value [of dv m k v] by (simp add: deref_value_def)
  ultimately show ?thesis by (simp add: at_const_eq)
qed

subsection \<open>Key access that fails fast\<close>

text \<open>
  C5. When some stored pair has key \<open>k\<close>, \<^verbatim>\<open>at(k)\<close> returns a reference into the
  first such pair and leaves the container as it was; it throws
  \<^verbatim>\<open>std::out_of_range("key wasn't found in FlatMap<>")\<close> exactly when no stored
  pair has key \<open>k\<close>. Both overloads.
\<close>

theorem at_raises_iff:
  "((\<exists>p \<in> set (values_fm m). fst p = k) \<longrightarrow>
      (\<exists>r. at m k = (Inr r, m) \<and> at_const m k = Inr r
           \<and> r < size_fm m \<and> fst (deref_item m r) = k
           \<and> (\<forall>j < r. fst (deref_item m j) \<noteq> k)))
   \<and> (fst (at m k) = Inl (out_of_range ''key wasn't found in FlatMap<>'')
        \<longleftrightarrow> \<not> (\<exists>p \<in> set (values_fm m). fst p = k))
   \<and> (at_const m k = Inl (out_of_range ''key wasn't found in FlatMap<>'')
        \<longleftrightarrow> \<not> (\<exists>p \<in> set (values_fm m). fst p = k))
   \<and> snd (at m k) = m"
proof (cases "k \<in> fst ` set (values_fm m)")
  case True
  then have ex: "\<exists>p \<in> set (values_fm m). fst p = k" by auto
  from True have "at m k = (Inr (lookup m k), m)" by (rule at_hit)
  moreover from True have "lookup m k < size_fm m" by (simp add: size_fm_def lookup_lt)
  moreover from True have "fst (deref_item m (lookup m k)) = k"
    by (simp add: deref_item_def lookup_key)
  moreover have "\<forall>j < lookup m k. fst (deref_item m j) \<noteq> k"
    by (simp add: deref_item_def lookup_first)
  ultimately show ?thesis using ex by (simp add: at_const_eq)
next
  case False
  then have nex: "\<not> (\<exists>p \<in> set (values_fm m). fst p = k)" by force
  from False show ?thesis using nex by (simp add: at_const_eq at_miss)
qed

theorem at_raises_iff_witness:
  "(\<exists>p \<in> set (values_fm \<lparr>values_fm = [(1::nat, 10::nat), (2, 20), (2, 30)]\<rparr>). fst p = 2)
   \<and> at \<lparr>values_fm = [(1::nat, 10::nat), (2, 20), (2, 30)]\<rparr> 2
       = (Inr 1, \<lparr>values_fm = [(1, 10), (2, 20), (2, 30)]\<rparr>)
   \<and> deref_value \<lparr>values_fm = [(1::nat, 10::nat), (2, 20), (2, 30)]\<rparr> 1 = 20
   \<and> \<not> (\<exists>p \<in> set (values_fm \<lparr>values_fm = [(1::nat, 10::nat), (2, 20), (2, 30)]\<rparr>). fst p = 3)
   \<and> fst (at \<lparr>values_fm = [(1::nat, 10::nat), (2, 20), (2, 30)]\<rparr> 3)
       = Inl (out_of_range ''key wasn't found in FlatMap<>'')"
  using at_raises_iff [of "\<lparr>values_fm = [(1::nat, 10::nat), (2, 20), (2, 30)]\<rparr>" 2]
        at_raises_iff [of "\<lparr>values_fm = [(1::nat, 10::nat), (2, 20), (2, 30)]\<rparr>" 3]
  by (simp add: at_def lookup_def deref_value_def)

subsection \<open>Index access\<close>

text \<open>
  C6. \<^verbatim>\<open>at_index(i)\<close> returns a reference to the \<open>i\<close>-th stored pair when \<open>i\<close> is
  below the size, and throws the \<^verbatim>\<open>std::out_of_range\<close> of the vector for every
  \<open>i\<close> from the size on, so also for index 0 on a new, empty container. Both
  overloads.
\<close>

theorem at_index_bounds:
  "(i < size_fm m \<longrightarrow>
      (\<exists>r. at_index rw m i = (Inr r, m) \<and> at_index_const rw m i = Inr r
           \<and> deref_item m r = values_fm m ! i))
   \<and> (size_fm m \<le> i \<longrightarrow>
      at_index rw m i = (Inl (out_of_range (rw i (size_fm m))), m)
      \<and> at_index_const rw m i = Inl (out_of_range (rw i (size_fm m))))
   \<and> fst (at_index rw (FlatMap_new :: ('k, 'v) FlatMap) 0) = Inl (out_of_range (rw 0 0))
   \<and> at_index_const rw (FlatMap_new :: ('k, 'v) FlatMap) 0 = Inl (out_of_range (rw 0 0))"
  by (simp add: at_index_def at_index_const_def vector_at_def size_fm_def deref_item_def
      FlatMap_new_def)

theorem at_index_bounds_witness:
  "(1::nat) < size_fm \<lparr>values_fm = [(1::nat, 10::nat), (2, 20)]\<rparr>
   \<and> fst (at_index (\<lambda>n s. ''vector'') \<lparr>values_fm = [(1::nat, 10::nat), (2, 20)]\<rparr> 1) = Inr 1
   \<and> deref_item \<lparr>values_fm = [(1::nat, 10::nat), (2, 20)]\<rparr> 1 = (2, 20)
   \<and> size_fm \<lparr>values_fm = [(1::nat, 10::nat), (2, 20)]\<rparr> \<le> 2
   \<and> fst (at_index (\<lambda>n s. ''vector'') \<lparr>values_fm = [(1::nat, 10::nat), (2, 20)]\<rparr> 2)
       = Inl (out_of_range ''vector'')"
  using at_index_bounds [of 1 "\<lparr>values_fm = [(1::nat, 10::nat), (2, 20)]\<rparr>" "\<lambda>n s. ''vector''"]
        at_index_bounds [of 2 "\<lparr>values_fm = [(1::nat, 10::nat), (2, 20)]\<rparr>" "\<lambda>n s. ''vector''"]
  by (simp add: size_fm_def deref_item_def at_index_def vector_at_def)

subsection \<open>Clearing\<close>

text \<open>
  C9. After \<^verbatim>\<open>clear()\<close> the size is 0 and \<^verbatim>\<open>empty()\<close> compares equal to
  \<^verbatim>\<open>true\<close> (it returns the \<^verbatim>\<open>size_t\<close> 1); a second \<^verbatim>\<open>clear()\<close> leaves exactly
  the container the first one left, with the same size and emptiness.
\<close>

theorem clear_idempotent:
  "size_fm (clear m) = 0 \<and> empty (clear m) = of_bool True
   \<and> clear (clear m) = clear m
   \<and> size_fm (clear (clear m)) = 0 \<and> empty (clear (clear m)) = of_bool True"
  by (simp add: clear_def size_fm_def empty_def)

subsection \<open>The frame of \<^verbatim>\<open>operator[]\<close>\<close>

text \<open>
  C10. When the key is present, \<^verbatim>\<open>operator[]\<close> leaves the container as it was;
  when the key is absent, the container after the call is the old one with the
  single pair of the key and \<^verbatim>\<open>VALUE()\<close> appended at the end. Both overloads.
\<close>

theorem index_op_frame:
  "(contains m k \<longrightarrow>
      snd (index_op dv m k) = m \<and> snd (index_op_const dv m k) = m)
   \<and> (\<not> contains m k \<longrightarrow>
      values_fm (snd (index_op dv m k)) = values_fm m @ [(k, dv)]
      \<and> snd (index_op dv m k) = m\<lparr>values_fm := values_fm m @ [(k, dv)]\<rparr>
      \<and> snd (index_op_const dv m k) = m\<lparr>values_fm := values_fm m @ [(k, dv)]\<rparr>)"
  by (simp add: contains_iff index_op_const_eq index_op_hit index_op_miss)

theorem index_op_frame_witness:
  "contains \<lparr>values_fm = [(1::nat, 10::nat), (2, 20)]\<rparr> 2
   \<and> snd (index_op 0 \<lparr>values_fm = [(1::nat, 10::nat), (2, 20)]\<rparr> 2)
       = \<lparr>values_fm = [(1, 10), (2, 20)]\<rparr>
   \<and> \<not> contains \<lparr>values_fm = [(1::nat, 10::nat), (2, 20)]\<rparr> 3
   \<and> values_fm (snd (index_op 0 \<lparr>values_fm = [(1::nat, 10::nat), (2, 20)]\<rparr> 3))
       = [(1, 10), (2, 20), (3, 0)]"
  using index_op_frame [of "\<lparr>values_fm = [(1::nat, 10::nat), (2, 20)]\<rparr>" 2 0]
        index_op_frame [of "\<lparr>values_fm = [(1::nat, 10::nat), (2, 20)]\<rparr>" 3 0]
  by (simp add: contains_def lookup_const_def)

subsection \<open>Uniqueness of keys\<close>

text \<open>
  C3. Starting from the empty container, after any finite sequence of
  \<^verbatim>\<open>operator[]\<close> calls (each with or without an assignment through the returned
  reference), for every key \<open>k\<close> the stored sequence holds at most one pair whose
  key is \<open>k\<close>.
\<close>

theorem index_ops_unique:
  "length (filter (\<lambda>p. fst p = k) (values_fm (index_ops dv cs FlatMap_new))) \<le> 1"
proof -
  have "distinct (map fst (values_fm (FlatMap_new :: ('a, 'b) FlatMap)))"
    by (simp add: FlatMap_new_def)
  then have "distinct (map fst (values_fm (index_ops dv cs (FlatMap_new :: ('a, 'b) FlatMap))))"
    by (rule index_ops_distinct)
  then show ?thesis by (rule distinct_keys_at_most_one)
qed

subsection \<open>Erasing\<close>

text \<open>
  C2. After \<^verbatim>\<open>erase(k)\<close> every pair whose key differs from \<open>k\<close> should still
  be there. The code does not keep them when \<open>k\<close> is the key of a stored pair,
  passed as the reference to it: on the pairs \<^verbatim>\<open>("a",1), ("",2), ("c",3)\<close> of a
  map from \<^verbatim>\<open>std::string\<close>, \<^verbatim>\<open>erase(at_index(0).first)\<close> has the key \<^verbatim>\<open>"a"\<close> and
  leaves \<^verbatim>\<open>("c",3)\<close> alone, so the pair of the other key \<^verbatim>\<open>""\<close> is removed too
  (a string moved from is empty, and the key object is the string moved from).
  The same key in an object outside the container leaves both other pairs.
\<close>

theorem erase_stored_key_loses_pair:
  "read_key [(''a'', 1::nat), ('''', 2), (''c'', 3)] (Stored 0) = ''a''
   \<and> values_fm (erase (\<lambda>(k, v). ('''', v))
        \<lparr>values_fm = [(''a'', 1::nat), ('''', 2), (''c'', 3)]\<rparr> (Stored 0)) = [(''c'', 3)]
   \<and> values_fm (erase (\<lambda>(k, v). ('''', v))
        \<lparr>values_fm = [(''a'', 1::nat), ('''', 2), (''c'', 3)]\<rparr> (External ''a''))
       = [('''', 2), (''c'', 3)]"
  by (simp add: erase_def stable_partition_def)

subsection \<open>Size accounting\<close>

text \<open>
  C4. After \<^verbatim>\<open>operator[]\<close> on the three distinct keys \<^verbatim>\<open>"a"\<close>, \<^verbatim>\<open>""\<close>, \<^verbatim>\<open>"c"\<close>
  from the empty container and one \<^verbatim>\<open>erase\<close> of the inserted key \<^verbatim>\<open>"a"\<close>, the
  size should be \<open>3 - 1 = 2\<close>. With the key passed as the reference
  \<^verbatim>\<open>at_index(0).first\<close> the code leaves size 1.
\<close>

theorem size_after_stored_key_erase:
  "index_ops (0::nat) [(''a'', None), ('''', None), (''c'', None)] FlatMap_new
     = \<lparr>values_fm = [(''a'', 0), ('''', 0), (''c'', 0)]\<rparr>
   \<and> read_key [(''a'', 0::nat), ('''', 0), (''c'', 0)] (Stored 0) = ''a''
   \<and> size_fm (erase_all (\<lambda>(k, v). ('''', v)) [Stored 0]
        (index_ops (0::nat) [(''a'', None), ('''', None), (''c'', None)] FlatMap_new)) = 1
   \<and> length [(''a'', None :: nat option), ('''', None), (''c'', None)]
        - length [Stored 0 :: string key_ref] = 2"
  by (simp add: FlatMap_new_def index_op_def lookup_def erase_def stable_partition_def
      size_fm_def)

subsection \<open>The exceptions of the interface\<close>




subsection \<open>No change on failure\<close>

text \<open>
  C8. For every call of the interface and every container: when the call
  throws (\<^verbatim>\<open>at\<close>, \<^verbatim>\<open>at_index\<close> or \<^verbatim>\<open>reserve\<close>), the container after the call is
  the container before it, so \<^verbatim>\<open>size\<close>, \<^verbatim>\<open>contains\<close>, \<^verbatim>\<open>at\<close> and \<^verbatim>\<open>at_index\<close>
  observe the same state; and \<^verbatim>\<open>operator[]\<close> never throws: it returns a
  reference into the container after the call, to a pair of the key asked for.
\<close>

theorem atomicity:
  "(fst (invoke dv mv rw ms lw m c) = Inl e \<longrightarrow> snd (invoke dv mv rw ms lw m c) = m)
   \<and> (\<exists>r. fst (invoke dv mv rw ms lw m (Call_index_op k)) = Inr (Value_ref r)
          \<and> r < size_fm (snd (invoke dv mv rw ms lw m (Call_index_op k)))
          \<and> fst (deref_item (snd (invoke dv mv rw ms lw m (Call_index_op k))) r) = k)"
proof -
  have fail: "fst (invoke dv mv rw ms lw m c) = Inl e \<longrightarrow> snd (invoke dv mv rw ms lw m c) = m"
    by (cases c) (auto simp: at_eq at_index_eq reserve_eq)
  have completes: "\<exists>r. fst (invoke dv mv rw ms lw m (Call_index_op k)) = Inr (Value_ref r)
          \<and> r < size_fm (snd (invoke dv mv rw ms lw m (Call_index_op k)))
          \<and> fst (deref_item (snd (invoke dv mv rw ms lw m (Call_index_op k))) r) = k"
  proof (cases "k \<in> fst ` set (values_fm m)")
    case True
    then show ?thesis
      by (simp add: index_op_hit size_fm_def deref_item_def lookup_lt lookup_key)
  next
    case False
    then show ?thesis
      by (simp add: index_op_miss size_fm_def deref_item_def)
  qed
  from fail completes show ?thesis by (rule conjI)
qed

theorem atomicity_witness:
  "fst (invoke (0::nat) id (\<lambda>n s. ''vector'') 576460752303423487 ''vector::reserve''
          \<lparr>values_fm = [(1::nat, 10::nat)]\<rparr> (Call_at 2))
     = Inl (out_of_range ''key wasn't found in FlatMap<>'')
   \<and> snd (invoke (0::nat) id (\<lambda>n s. ''vector'') 576460752303423487 ''vector::reserve''
          \<lparr>values_fm = [(1::nat, 10::nat)]\<rparr> (Call_at 2))
     = \<lparr>values_fm = [(1, 10)]\<rparr>
   \<and> fst (invoke (0::nat) id (\<lambda>n s. ''vector'') 576460752303423487 ''vector::reserve''
          \<lparr>values_fm = [(1::nat, 10::nat)]\<rparr> (Call_at_index 1))
     = Inl (out_of_range ''vector'')
   \<and> snd (invoke (0::nat) id (\<lambda>n s. ''vector'') 576460752303423487 ''vector::reserve''
          \<lparr>values_fm = [(1::nat, 10::nat)]\<rparr> (Call_at_index 1))
     = \<lparr>values_fm = [(1, 10)]\<rparr>
   \<and> fst (invoke (0::nat) id (\<lambda>n s. ''vector'') 576460752303423487 ''vector::reserve''
          \<lparr>values_fm = [(1::nat, 10::nat)]\<rparr> (Call_reserve 18446744073709551615))
     = Inl (length_error ''vector::reserve'')
   \<and> snd (invoke (0::nat) id (\<lambda>n s. ''vector'') 576460752303423487 ''vector::reserve''
          \<lparr>values_fm = [(1::nat, 10::nat)]\<rparr> (Call_reserve 18446744073709551615))
     = \<lparr>values_fm = [(1, 10)]\<rparr>"
  using atomicity [of 0 id "\<lambda>n s. ''vector''" 576460752303423487 "''vector::reserve''"
                      "\<lparr>values_fm = [(1::nat, 10::nat)]\<rparr>" "Call_at 2"
                      "out_of_range ''key wasn't found in FlatMap<>''"]
        atomicity [of 0 id "\<lambda>n s. ''vector''" 576460752303423487 "''vector::reserve''"
                      "\<lparr>values_fm = [(1::nat, 10::nat)]\<rparr>" "Call_at_index 1"
                      "out_of_range ''vector''"]
        atomicity [of 0 id "\<lambda>n s. ''vector''" 576460752303423487 "''vector::reserve''"
                      "\<lparr>values_fm = [(1::nat, 10::nat)]\<rparr>" "Call_reserve 18446744073709551615"
                      "length_error ''vector::reserve''"]
  by (simp add: at_def lookup_def at_index_def vector_at_def reserve_def vector_reserve_def)

subsection \<open>The example scenario of the specification\<close>

lemma example_scenario_inserted:
  "index_ops (0::nat) [(''a'', Some 1), (''b'', Some 2), (''c'', Some 3)] FlatMap_new
     = \<lparr>values_fm = [(''a'', 1), (''b'', 2), (''c'', 3)]\<rparr>"
  by (simp add: FlatMap_new_def insert_or_assign_def index_op_def assign_def lookup_def)

lemma example_scenario:
  "size_fm \<lparr>values_fm = [(''a'', 1::nat), (''b'', 2), (''c'', 3)]\<rparr> = 3
   \<and> at_index_const rw \<lparr>values_fm = [(''a'', 1::nat), (''b'', 2), (''c'', 3)]\<rparr> 1 = Inr 1
   \<and> deref_item \<lparr>values_fm = [(''a'', 1::nat), (''b'', 2), (''c'', 3)]\<rparr> 1 = (''b'', 2)
   \<and> erase mv \<lparr>values_fm = [(''a'', 1::nat), (''b'', 2), (''c'', 3)]\<rparr> (External ''b'')
       = \<lparr>values_fm = [(''a'', 1), (''c'', 3)]\<rparr>
   \<and> size_fm \<lparr>values_fm = [(''a'', 1::nat), (''c'', 3)]\<rparr> = 2
   \<and> \<not> contains \<lparr>values_fm = [(''a'', 1::nat), (''c'', 3)]\<rparr> ''b''
   \<and> read_at \<lparr>values_fm = [(''a'', 1::nat), (''c'', 3)]\<rparr> ''b''
       = Inl (out_of_range ''key wasn't found in FlatMap<>'')"
proof -
  have "values_fm (erase mv \<lparr>values_fm = [(''a'', 1::nat), (''b'', 2), (''c'', 3)]\<rparr> (External ''b''))
      = [(''a'', 1), (''c'', 3)]"
    by (simp add: erase_external)
  then have "erase mv \<lparr>values_fm = [(''a'', 1::nat), (''b'', 2), (''c'', 3)]\<rparr> (External ''b'')
       = \<lparr>values_fm = [(''a'', 1), (''c'', 3)]\<rparr>"
    by (simp add: erase_def split_beta)
  then show ?thesis
    by (simp add: size_fm_def at_index_const_def vector_at_def deref_item_def
        contains_def lookup_const_def read_at_def at_const_def)
qed

end
